theory Spec2Isabelle
  imports
    Main
    "HOL-Library.Word"
    "HOL-Library.List_Lexorder"
    "HOL-Library.Sublist"
    "HOL-Library.Multiset"
begin

text \<open>
  A model of the Sudojo solver client: the query encoder \<open>createURLSearchParams\<close>, the
  class \<open>SudojoSolverClient\<close> with \<open>buildUrl\<close>, \<open>request\<close> and the operations
  \<open>solve\<close>, \<open>validate\<close> and \<open>generate\<close> (SudojoSolverClient.ts), and the query keys,
  stale times and hooks of the hook layer (hooks/query-keys.ts, hooks/query-config.ts,
  hooks/use-solver.ts). The definitions come first, each after the code it models; the
  properties of the specification follow, each under its number, C1 to C10.
\<close>

section \<open>JavaScript values used by the client\<close>

text \<open>
  A JavaScript string is a sequence of 16-bit code units. \<open>Array.prototype.sort()\<close>
  without a comparator orders strings by their code units, a proper prefix first: this is
  the lexicographic order that \<open>HOL-Library.List_Lexorder\<close> puts on lists of
  \<open>16 word\<close>. \<open>js\<close> embeds an ASCII literal of the source.
\<close>

type_synonym jsstring = "16 word list"

definition js :: "string \<Rightarrow> jsstring" where
  "js s = map of_char s"

text \<open>\<open>Array.prototype.join(sep)\<close> on an array of strings.\<close>

fun join :: "jsstring \<Rightarrow> jsstring list \<Rightarrow> jsstring" where
  "join sep [] = []"
| "join sep [x] = x"
| "join sep (x # y # ys) = x @ sep @ join sep (y # ys)"

text \<open>
  The status of a response is a JavaScript number. The model takes the statuses that are
  safe integers, the integers of magnitude below \<open>2^53\<close> (every HTTP status code is one):
  JavaScript holds each of them exactly, and \<open>String(n)\<close> and \<open>`${n}`\<close> print its decimal
  digits, with a minus sign when it is negative. Other numbers (fractions, \<open>NaN\<close>, the
  infinities, larger magnitudes) are not values of this type.
\<close>

typedef safe_integer = "{i :: int. - (2 ^ 53) < i \<and> i < 2 ^ 53}"
  by (rule exI [of _ 0]) simp

fun digits :: "nat \<Rightarrow> jsstring" where
  "digits n = (if n < 10 then [of_nat (48 + n)] else digits (n div 10) @ [of_nat (48 + n mod 10)])"

declare digits.simps [simp del]

definition Number_toString :: "safe_integer \<Rightarrow> jsstring" where
  "Number_toString n =
     (let i = Rep_safe_integer n
      in if i < 0 then js ''-'' @ digits (nat (- i)) else digits (nat i))"

section \<open>SudojoSolverClient.ts: the URL search params utility\<close>

text \<open>
  \<open>createURLSearchParams\<close> keeps \<open>const params: Record<string, string[]> = {}\<close>, a plain
  object. Its own properties are modelled as an association list in creation order, each
  key once. A plain object also inherits the properties of \<open>Object.prototype\<close>
  (ECMA-262, 20.1.3 and B.2.2): reading \<open>params[key]\<close> for one of these names yields the
  inherited function or object, not \<open>undefined\<close>.
\<close>

type_synonym params = "(jsstring \<times> jsstring list) list"

datatype js_exception = TypeError

datatype property = Own "jsstring list" | Inherited | Missing

definition Object_prototype_keys :: "jsstring list" where
  "Object_prototype_keys = map js
     [''constructor'', ''hasOwnProperty'', ''isPrototypeOf'', ''propertyIsEnumerable'',
      ''toLocaleString'', ''toString'', ''valueOf'', ''__proto__'',
      ''__defineGetter__'', ''__defineSetter__'', ''__lookupGetter__'', ''__lookupSetter__'']"

text \<open>\<open>params[key]\<close> as a read.\<close>

definition get_property :: "params \<Rightarrow> jsstring \<Rightarrow> property" where
  "get_property params key =
     (case map_of params key of
        Some vs \<Rightarrow> Own vs
      | None \<Rightarrow> if key \<in> set Object_prototype_keys then Inherited else Missing)"

text \<open>
  \<open>params[key] = v\<close> as a write: an own property keeps its place, a new one goes last.
  (The client only writes where the read gave \<open>undefined\<close>, so never to an inherited name.)
\<close>

fun set_property :: "params \<Rightarrow> jsstring \<Rightarrow> jsstring list \<Rightarrow> params" where
  "set_property [] key v = [(key, v)]"
| "set_property ((k, w) # ps) key v =
     (if k = key then (k, v) # ps else (k, w) # set_property ps key v)"

definition createURLSearchParams :: params where
  "createURLSearchParams = []"

text \<open>
  \<^verbatim>\<open>append: (key, value) => { if (!params[key]) { params[key] = []; } params[key]?.push(value); }\<close>

  \<open>!params[key]\<close> holds exactly when the read gives \<open>undefined\<close>: an array is truthy, and
  so is every inherited value. \<open>?.\<close> skips the call only on \<open>undefined\<close> or \<open>null\<close>; an
  inherited value has no \<open>push\<close>, so calling it throws a \<open>TypeError\<close>.
\<close>

definition append_param :: "params \<Rightarrow> jsstring \<Rightarrow> jsstring \<Rightarrow> js_exception + params" where
  "append_param params key value =
     (let params1 = (if get_property params key = Missing then set_property params key [] else params)
      in case get_property params1 key of
           Own vs \<Rightarrow> Inr (set_property params1 key (vs @ [value]))
         | Inherited \<Rightarrow> Inl TypeError
         | Missing \<Rightarrow> Inr params1)"

text \<open>
  \<open>Object.keys(params)\<close>: the own keys. JavaScript lists keys that are array indices
  first and the others in creation order; \<open>toString\<close> sorts the keys at once, and the
  sorted list of distinct keys does not depend on the order they come in (lemma
  \<open>toString_any_key_order\<close>).
\<close>

definition Object_keys :: "params \<Rightarrow> jsstring list" where
  "Object_keys params = map fst params"

text \<open>
  \<^verbatim>\<open>toString: () => Object.keys(params).sort()
      .flatMap((key) => (params[key] ?? []).map((value) => `${key}=${value}`)).join('&')\<close>

  Every key is an own key here, so the read gives its array.
\<close>

definition toString :: "params \<Rightarrow> jsstring" where
  "toString params =
     (let sortedKeys = sort (Object_keys params)
      in join (js ''&'')
           (concat (map (\<lambda>key. map (\<lambda>value. key @ js ''='' @ value)
                                  (case get_property params key of Own vs \<Rightarrow> vs | _ \<Rightarrow> []))
                        sortedKeys)))"

text \<open>A sequence of \<open>append\<close> calls on one encoder, stopping at the first exception.\<close>

fun append_all :: "params \<Rightarrow> (jsstring \<times> jsstring) list \<Rightarrow> js_exception + params" where
  "append_all params [] = Inr params"
| "append_all params ((key, value) # rest) =
     (case append_param params key value of
        Inl e \<Rightarrow> Inl e
      | Inr params' \<Rightarrow> append_all params' rest)"

text \<open>A fresh encoder, the given appends in order, then \<open>toString()\<close>.\<close>

definition encode :: "(jsstring \<times> jsstring) list \<Rightarrow> js_exception + jsstring" where
  "encode pairs =
     (case append_all createURLSearchParams pairs of
        Inl e \<Rightarrow> Inl e
      | Inr params \<Rightarrow> Inr (toString params))"

section \<open>SudojoSolverClient.ts: configuration\<close>

record ClientConfig =
  baseUrl :: jsstring
  timeout :: "int option"

record Endpoints =
  SOLVE :: jsstring
  VALIDATE :: jsstring
  GENERATE :: jsstring

record ApiConfig =
  BASE_URL :: jsstring
  ENDPOINTS :: Endpoints
  DEFAULT_HEADERS :: "(jsstring \<times> jsstring) list"

text \<open>
  \<open>baseUrl.replace(/\/+$/, '')\<close>: the first position from the left where one or more
  \<open>/\<close> reach the end of the string; the match, which runs to the end, is removed.
\<close>

fun replace_trailing_slashes :: "jsstring \<Rightarrow> jsstring" where
  "replace_trailing_slashes [] = []"
| "replace_trailing_slashes (c # cs) =
     (if c # cs = replicate (Suc (length cs)) (of_char CHR ''/'') then []
      else c # replace_trailing_slashes cs)"

definition createApiConfig :: "ClientConfig \<Rightarrow> ApiConfig" where
  "createApiConfig config =
     \<lparr>BASE_URL = replace_trailing_slashes (baseUrl config),
      ENDPOINTS = \<lparr>SOLVE = js ''/api/solve'', VALIDATE = js ''/api/validate'',
                   GENERATE = js ''/api/generate''\<rparr>,
      DEFAULT_HEADERS = [(js ''Content-Type'', js ''application/json''),
                         (js ''Accept'', js ''application/json'')]\<rparr>"

section \<open>The transport and the client class\<close>

text \<open>
  The injected \<open>NetworkClient\<close> is used through \<open>get(url, {headers})\<close> only. A call either
  rejects with the transport's own error or resolves to a response with \<open>ok\<close>, \<open>status\<close>
  and an optional body. The body is whatever the transport parsed: \<open>response.data as T\<close>
  is a cast, so one type \<open>'d\<close> of bodies serves the three operations.
\<close>

datatype 'd body = Undefined | Null | Data 'd

record 'd NetworkResponse =
  ok :: bool
  status :: safe_integer
  data :: "'d body"

record RequestOptions =
  headers :: "(jsstring \<times> jsstring) list"

type_synonym ('d, 'x) NetworkClient = "jsstring \<Rightarrow> RequestOptions \<Rightarrow> 'x + 'd NetworkResponse"

text \<open>
  What a call of the client can throw: \<open>SudojoApiError\<close> (with \<open>statusCode\<close> and
  \<open>response\<close>), a plain \<open>Error\<close> with only a message, an exception of the run time, or
  the transport's rejection passed on unchanged.
\<close>

datatype ('d, 'x) thrown =
    SudojoApiError (message: jsstring) (statusCode: safe_integer) (response: "'d body")
  | Error jsstring
  | Exception js_exception
  | Rejected 'x

record ('d, 'x) SudojoSolverClient =
  networkClient :: "('d, 'x) NetworkClient"
  config :: ApiConfig
  headers :: "(jsstring \<times> jsstring) list"

definition new_SudojoSolverClient ::
    "('d, 'x) NetworkClient \<Rightarrow> ClientConfig \<Rightarrow> ('d, 'x) SudojoSolverClient" where
  "new_SudojoSolverClient nc cfg =
     \<lparr>networkClient = nc, config = createApiConfig cfg,
      headers = DEFAULT_HEADERS (createApiConfig cfg)\<rparr>"

definition createSudojoSolverClient ::
    "('d, 'x) NetworkClient \<Rightarrow> ClientConfig \<Rightarrow> ('d, 'x) SudojoSolverClient" where
  "createSudojoSolverClient nc cfg = new_SudojoSolverClient nc cfg"

subsection \<open>buildUrl\<close>

text \<open>The values of \<open>Record<string, string | boolean | undefined>\<close> and \<open>String(value)\<close>.\<close>

datatype param_value = PUndefined | PBoolean bool | PString jsstring

fun String_of :: "param_value \<Rightarrow> jsstring" where
  "String_of (PString s) = s"
| "String_of (PBoolean True) = js ''true''"
| "String_of (PBoolean False) = js ''false''"
| "String_of PUndefined = js ''undefined''"

text \<open>
  \<^verbatim>\<open>for (const [key, value] of Object.entries(params)) {
    if (value !== undefined) { searchParams.append(key, String(value)); } }\<close>

  The entries of the object literals that the three operations pass come in the order
  they are written.
\<close>

fun append_entries :: "params \<Rightarrow> (jsstring \<times> param_value) list \<Rightarrow> js_exception + params" where
  "append_entries searchParams [] = Inr searchParams"
| "append_entries searchParams ((key, value) # entries) =
     (if value \<noteq> PUndefined then
        (case append_param searchParams key (String_of value) of
           Inl e \<Rightarrow> Inl e
         | Inr searchParams' \<Rightarrow> append_entries searchParams' entries)
      else append_entries searchParams entries)"

definition buildUrl ::
    "ApiConfig \<Rightarrow> jsstring \<Rightarrow> (jsstring \<times> param_value) list \<Rightarrow> js_exception + jsstring" where
  "buildUrl cfg endpoint entries =
     (case append_entries createURLSearchParams entries of
        Inl e \<Rightarrow> Inl e
      | Inr searchParams \<Rightarrow>
          (let query = toString searchParams
           in Inr (BASE_URL cfg @ endpoint @ (if query \<noteq> [] then js ''?'' @ query else []))))"

subsection \<open>request\<close>

text \<open>
  A call returns the \<open>get\<close> calls it made on the transport, in order, and its outcome:
  \<open>Inl\<close> what it threw, \<open>Inr\<close> what it resolved to.
\<close>

record GetCall =
  url :: jsstring
  options :: RequestOptions

type_synonym ('d, 'x) outcome = "GetCall list \<times> (('d, 'x) thrown + 'd)"

definition request :: "('d, 'x) SudojoSolverClient \<Rightarrow> jsstring \<Rightarrow> ('d, 'x) outcome" where
  "request this u =
     ([\<lparr>url = u, options = \<lparr>RequestOptions.headers = headers this\<rparr>\<rparr>],
      (case networkClient this u \<lparr>RequestOptions.headers = headers this\<rparr> of
         Inl e \<Rightarrow> Inl (Rejected e)
       | Inr res \<Rightarrow>
           if \<not> ok res then
             Inl (SudojoApiError
                    (js ''API request failed with status '' @ Number_toString (status res))
                    (status res) (NetworkResponse.data res))
           else (case NetworkResponse.data res of
                   Undefined \<Rightarrow> Inl (Error (js ''No data received from server''))
                 | Null \<Rightarrow> Inl (Error (js ''No data received from server''))
                 | Data d \<Rightarrow> Inr d)))"

subsection \<open>types.ts: the options of the three operations\<close>

record ValidateOptions =
  original :: jsstring

record GenerateOptions =
  symmetrical :: "bool option"

record SolveOptions =
  original :: jsstring
  user :: jsstring
  autoPencilmarks :: "bool option"
  pencilmarks :: "jsstring option"
  filters :: "jsstring option"

text \<open>An optional property as a value of the object literal passed to \<open>buildUrl\<close>.\<close>

definition boolean_param :: "bool option \<Rightarrow> param_value" where
  "boolean_param b = (case b of None \<Rightarrow> PUndefined | Some v \<Rightarrow> PBoolean v)"

definition string_param :: "jsstring option \<Rightarrow> param_value" where
  "string_param s = (case s of None \<Rightarrow> PUndefined | Some v \<Rightarrow> PString v)"

subsection \<open>solve, validate, generate\<close>

text \<open>
  The body that the three operations share:
  \<^verbatim>\<open>const url = this.buildUrl(endpoint, {...}); return this.request<T>(url);\<close>
  An exception in \<open>buildUrl\<close> leaves the transport uncalled.
\<close>

definition call_endpoint ::
    "('d, 'x) SudojoSolverClient \<Rightarrow> jsstring \<Rightarrow> (jsstring \<times> param_value) list \<Rightarrow> ('d, 'x) outcome" where
  "call_endpoint this endpoint entries =
     (case buildUrl (config this) endpoint entries of
        Inl e \<Rightarrow> ([], Inl (Exception e))
      | Inr u \<Rightarrow> request this u)"

text \<open>The object literals that the operations hand to \<open>buildUrl\<close>.\<close>

definition solve_params :: "SolveOptions \<Rightarrow> (jsstring \<times> param_value) list" where
  "solve_params opts =
     [(js ''original'', PString (SolveOptions.original opts)),
      (js ''user'', PString (user opts)),
      (js ''autopencilmarks'', boolean_param (autoPencilmarks opts)),
      (js ''pencilmarks'', string_param (pencilmarks opts)),
      (js ''filters'', string_param (filters opts))]"

definition validate_params :: "ValidateOptions \<Rightarrow> (jsstring \<times> param_value) list" where
  "validate_params opts = [(js ''original'', PString (ValidateOptions.original opts))]"

text \<open>\<open>generate(options: GenerateOptions = {})\<close>: no argument is the empty object.\<close>

definition generate_params :: "GenerateOptions option \<Rightarrow> (jsstring \<times> param_value) list" where
  "generate_params arg =
     (let opts = (case arg of None \<Rightarrow> \<lparr>symmetrical = None\<rparr> | Some given \<Rightarrow> given)
      in [(js ''symmetrical'', boolean_param (symmetrical opts))])"

definition solve :: "('d, 'x) SudojoSolverClient \<Rightarrow> SolveOptions \<Rightarrow> ('d, 'x) outcome" where
  "solve this opts = call_endpoint this (SOLVE (ENDPOINTS (config this))) (solve_params opts)"

definition validate :: "('d, 'x) SudojoSolverClient \<Rightarrow> ValidateOptions \<Rightarrow> ('d, 'x) outcome" where
  "validate this opts =
     call_endpoint this (VALIDATE (ENDPOINTS (config this))) (validate_params opts)"

definition generate :: "('d, 'x) SudojoSolverClient \<Rightarrow> GenerateOptions option \<Rightarrow> ('d, 'x) outcome" where
  "generate this arg =
     call_endpoint this (GENERATE (ENDPOINTS (config this))) (generate_params arg)"

text \<open>The three operations of the client, to speak of each of them at once.\<close>

datatype operation =
    Solve SolveOptions
  | Validate ValidateOptions
  | Generate "GenerateOptions option"

fun perform :: "('d, 'x) SudojoSolverClient \<Rightarrow> operation \<Rightarrow> ('d, 'x) outcome" where
  "perform this (Solve opts) = solve this opts"
| "perform this (Validate opts) = validate this opts"
| "perform this (Generate arg) = generate this arg"

subsection \<open>types.ts: the response envelope\<close>

datatype ErrorCode = Unknown | AutoPencilmarksRequired | CannotSolve | MultipleSolutions

fun ErrorCode_value :: "ErrorCode \<Rightarrow> jsstring" where
  "ErrorCode_value Unknown = js ''unknown_error''"
| "ErrorCode_value AutoPencilmarksRequired = js ''auto_pencilmarks_required''"
| "ErrorCode_value CannotSolve = js ''cannot_solve''"
| "ErrorCode_value MultipleSolutions = js ''multiple_solutions''"

record ErrorPayload =
  code :: ErrorCode
  message :: jsstring

record 'p SudokuResult =
  success :: bool
  error :: "ErrorPayload option"
  data :: "'p option"

section \<open>hooks/query-keys.ts\<close>

text \<open>
  A query key is a JavaScript array; its elements here are strings, the options objects
  of solve and generate, or \<open>undefined\<close>. Two keys are equal when they have the same
  elements, objects compared by their properties.
\<close>

datatype key_part =
    KString jsstring
  | KSolveOptions SolveOptions
  | KGenerateOptions GenerateOptions
  | KUndefined

type_synonym QueryKey = "key_part list"

definition solverBase :: QueryKey where
  "solverBase = [KString (js ''sudojo-solver'')]"

definition queryKeys_solver_all :: QueryKey where
  "queryKeys_solver_all = solverBase"

definition queryKeys_solver_solve :: "SolveOptions \<Rightarrow> QueryKey" where
  "queryKeys_solver_solve opts = solverBase @ [KString (js ''solve''), KSolveOptions opts]"

definition queryKeys_solver_validate :: "jsstring \<Rightarrow> QueryKey" where
  "queryKeys_solver_validate orig = solverBase @ [KString (js ''validate''), KString orig]"

definition queryKeys_solver_generate :: "GenerateOptions option \<Rightarrow> QueryKey" where
  "queryKeys_solver_generate arg =
     solverBase @ [KString (js ''generate''),
                   (case arg of None \<Rightarrow> KUndefined | Some opts \<Rightarrow> KGenerateOptions opts)]"

definition createQueryKey :: "key_part \<Rightarrow> key_part list \<Rightarrow> QueryKey" where
  "createQueryKey service parts = service # parts"

definition getServiceKeys :: QueryKey where
  "getServiceKeys = queryKeys_solver_all"

section \<open>hooks/query-config.ts\<close>

record StaleTimes =
  SOLVE :: int
  VALIDATE :: int
  GENERATE :: int

definition STALE_TIMES :: StaleTimes where
  "STALE_TIMES = \<lparr>SOLVE = 1 * 60 * 1000, VALIDATE = 10 * 60 * 1000, GENERATE = 0\<rparr>"

section \<open>hooks/use-solver.ts\<close>

text \<open>
  Each hook builds a client and hands \<open>useQuery\<close> one object: the query key, the query
  function, the stale time of its operation, and then the caller's \<open>queryOptions\<close>
  spread over them. Of \<open>queryOptions\<close> the model keeps \<open>staleTime\<close>, the one property the
  spread can replace (its type leaves out \<open>queryKey\<close> and \<open>queryFn\<close>): absent, or present
  with a number or \<open>undefined\<close>. The query function is modelled by what calling it gives.
\<close>

datatype 'a member = Absent | Present 'a

record QueryOptions =
  staleTime :: "int option member"

record ('d, 'x) UseQueryOptions =
  queryKey :: QueryKey
  queryFn :: "('d, 'x) outcome"
  staleTime :: "int option"

definition spread ::
    "('d, 'x) UseQueryOptions \<Rightarrow> QueryOptions option \<Rightarrow> ('d, 'x) UseQueryOptions" where
  "spread obj queryOptions =
     (case queryOptions of
        None \<Rightarrow> obj
      | Some q \<Rightarrow> (case QueryOptions.staleTime q of
                     Absent \<Rightarrow> obj
                   | Present v \<Rightarrow> obj\<lparr>UseQueryOptions.staleTime := v\<rparr>))"

definition useSolverSolve ::
    "('d, 'x) NetworkClient \<Rightarrow> ClientConfig \<Rightarrow> SolveOptions \<Rightarrow> QueryOptions option
       \<Rightarrow> ('d, 'x) UseQueryOptions" where
  "useSolverSolve nc cfg opts queryOptions =
     (let client = new_SudojoSolverClient nc cfg
      in spread
           \<lparr>queryKey = queryKeys_solver_solve
                          \<lparr>SolveOptions.original = SolveOptions.original opts,
                           user = user opts,
                           autoPencilmarks = autoPencilmarks opts,
                           pencilmarks = pencilmarks opts,
                           filters = filters opts\<rparr>,
            queryFn = solve client opts,
            staleTime = Some (StaleTimes.SOLVE STALE_TIMES)\<rparr>
           queryOptions)"

definition useSolverValidate ::
    "('d, 'x) NetworkClient \<Rightarrow> ClientConfig \<Rightarrow> ValidateOptions \<Rightarrow> QueryOptions option
       \<Rightarrow> ('d, 'x) UseQueryOptions" where
  "useSolverValidate nc cfg opts queryOptions =
     (let client = new_SudojoSolverClient nc cfg
      in spread
           \<lparr>queryKey = queryKeys_solver_validate (ValidateOptions.original opts),
            queryFn = validate client opts,
            staleTime = Some (StaleTimes.VALIDATE STALE_TIMES)\<rparr>
           queryOptions)"

text \<open>\<open>options: GenerateOptions = {}\<close>, as in the client.\<close>

definition useSolverGenerate ::
    "('d, 'x) NetworkClient \<Rightarrow> ClientConfig \<Rightarrow> GenerateOptions option \<Rightarrow> QueryOptions option
       \<Rightarrow> ('d, 'x) UseQueryOptions" where
  "useSolverGenerate nc cfg arg queryOptions =
     (let opts = (case arg of None \<Rightarrow> \<lparr>symmetrical = None\<rparr> | Some given \<Rightarrow> given);
          client = new_SudojoSolverClient nc cfg
      in spread
           \<lparr>queryKey = queryKeys_solver_generate (Some \<lparr>symmetrical = symmetrical opts\<rparr>),
            queryFn = generate client (Some opts),
            staleTime = Some (StaleTimes.GENERATE STALE_TIMES)\<rparr>
           queryOptions)"

section \<open>The query encoder\<close>

subsection \<open>Grouping by key is the stable sort\<close>

lemma concat_pick_one:
  "distinct ks \<Longrightarrow> a \<in> set ks \<Longrightarrow> concat (map (\<lambda>k. if k = a then F else []) ks) = F"
  by (induction ks) (auto simp: concat_eq_Nil_conv)

lemma concat_pick_none:
  "a \<notin> set ks \<Longrightarrow> concat (map (\<lambda>k. if k = a then F else []) ks) = []"
  by (induction ks) auto

lemma filter_key_groups:
  "filter (\<lambda>p. f p = a) (concat (map (\<lambda>k. filter (\<lambda>p. f p = k) ps) ks))
     = concat (map (\<lambda>k. if k = a then filter (\<lambda>p. f p = a) ps else []) ks)"
proof -
  have "filter (\<lambda>p. f p = a) (filter (\<lambda>p. f p = k) ps)
          = (if k = a then filter (\<lambda>p. f p = a) ps else [])" for k
    by (induction ps) auto
  then show ?thesis
    by (simp add: filter_concat comp_def)
qed

lemma filter_groups_present:
  assumes "distinct ks" and "a \<in> set ks"
  shows "filter (\<lambda>p. f p = a) (concat (map (\<lambda>k. filter (\<lambda>p. f p = k) ps) ks))
           = filter (\<lambda>p. f p = a) ps"
  using assms by (simp add: filter_key_groups concat_pick_one)

lemma sorted_key_groups:
  "sorted ks \<Longrightarrow> sorted (map f (concat (map (\<lambda>k. filter (\<lambda>p. f p = k) ps) ks)))"
proof (induction ks)
  case Nil
  then show ?case by simp
next
  case (Cons k ks)
  have "map f (filter (\<lambda>p. f p = k) ps) = replicate (length (filter (\<lambda>p. f p = k) ps)) k"
    by (induction ps) auto
  then have same: "sorted (map f (filter (\<lambda>p. f p = k) ps))"
    by (simp add: sorted_replicate)
  show ?case using Cons same
    by (auto simp: sorted_append)
qed

lemma groups_are_sort_key:
  fixes f :: "'a \<Rightarrow> 'k::linorder"
  assumes d: "distinct ks" and s: "sorted ks" and c: "f ` set ps \<subseteq> set ks"
  shows "concat (map (\<lambda>k. filter (\<lambda>p. f p = k) ps) ks) = sort_key f ps"
proof -
  let ?L = "concat (map (\<lambda>k. filter (\<lambda>p. f p = k) ps) ks)"
  have sub: "set ?L \<subseteq> set ps" by auto
  have grp: "filter (\<lambda>p. f p = a) ?L = filter (\<lambda>p. f p = a) ps" if "a \<in> set ks" for a
    using d that by (rule filter_groups_present)
  have cnt: "filter ((=) x) ?L = filter ((=) x) ps" for x
  proof (cases "f x \<in> set ks")
    case True
    have "filter ((=) x) ?L = filter ((=) x) (filter (\<lambda>p. f p = f x) ?L)"
      by (simp add: conj_commute cong: conj_cong)
    also have "\<dots> = filter ((=) x) (filter (\<lambda>p. f p = f x) ps)"
      by (simp only: grp [OF True])
    also have "\<dots> = filter ((=) x) ps"
      by (simp add: conj_commute cong: conj_cong)
    finally show ?thesis .
  next
    case False
    then have "x \<notin> set ps" using c by auto
    moreover from this have "x \<notin> set ?L" using sub by auto
    ultimately have "filter ((=) x) ?L = []" and "filter ((=) x) ps = []"
      by (simp_all only: filter_empty_conv) auto
    then show ?thesis by simp
  qed
  have m: "mset ?L = mset ps"
    by (rule multiset_eqI) (simp only: count_mset count_list_eq_length_filter cnt)
  have g: "filter (\<lambda>x. f k = f x) ?L = filter (\<lambda>x. f k = f x) ps" if "k \<in> set ?L" for k
  proof -
    from that sub c have "f k \<in> set ks" by auto
    from grp [OF this] show ?thesis by (simp add: eq_commute)
  qed
  show ?thesis
    using m g sorted_key_groups [OF s] by (rule properties_for_sort_key [symmetric])
qed


subsection \<open>The encoder's state after a sequence of appends\<close>

lemma map_of_set_property:
  "map_of (set_property sp key v) = (map_of sp)(key \<mapsto> v)"
  by (induction sp key v rule: set_property.induct) auto

lemma keys_set_property:
  "map fst (set_property sp key v)
     = (if key \<in> fst ` set sp then map fst sp else map fst sp @ [key])"
  by (induction sp key v rule: set_property.induct) (auto simp: image_iff)

lemma key_set_set_property:
  "fst ` set (set_property sp key v) = insert key (fst ` set sp)"
  by (induction sp key v rule: set_property.induct) auto

lemma get_property_own:
  "map_of sp key = Some vs \<Longrightarrow> get_property sp key = Own vs"
  by (simp add: get_property_def)

lemma get_property_missing:
  "map_of sp key = None \<Longrightarrow> key \<notin> set Object_prototype_keys \<Longrightarrow> get_property sp key = Missing"
  by (simp add: get_property_def)

lemma get_property_inherited:
  "map_of sp key = None \<Longrightarrow> key \<in> set Object_prototype_keys \<Longrightarrow> get_property sp key = Inherited"
  by (simp add: get_property_def)

lemma append_param_own:
  "map_of sp key = Some vs \<Longrightarrow> append_param sp key v = Inr (set_property sp key (vs @ [v]))"
  by (simp add: append_param_def get_property_own)

lemma append_param_new:
  assumes "map_of sp key = None" and "key \<notin> set Object_prototype_keys"
  shows "append_param sp key v = Inr (set_property (set_property sp key []) key [v])"
proof -
  have "get_property (set_property sp key []) key = Own []"
    by (simp add: get_property_own map_of_set_property)
  then show ?thesis
    using assms by (simp add: append_param_def get_property_missing)
qed

lemma append_param_inherited:
  assumes "map_of sp key = None" and "key \<in> set Object_prototype_keys"
  shows "append_param sp key v = Inl TypeError"
  using assms by (simp add: append_param_def get_property_inherited)

text \<open>
  The state of the encoder after the appends \<open>ps\<close>: each key once, and under each
  key of \<open>ps\<close> the values that \<open>ps\<close> gives it, in the order of \<open>ps\<close>. One more
  append keeps this, unless its key is an inherited name.
\<close>

lemma append_param_step:
  assumes d: "distinct (map fst sp)"
    and m: "\<And>k. map_of sp k
               = (if k \<in> fst ` set ps then Some (map snd (filter (\<lambda>p. fst p = k) ps)) else None)"
    and ok: "key \<notin> set Object_prototype_keys"
  shows "\<exists>sp'. append_param sp key v = Inr sp' \<and> distinct (map fst sp')
           \<and> (\<forall>k. map_of sp' k
                 = (if k \<in> fst ` set (ps @ [(key, v)])
                    then Some (map snd (filter (\<lambda>p. fst p = k) (ps @ [(key, v)]))) else None))"
proof (cases "key \<in> fst ` set ps")
  case True
  then have own: "map_of sp key = Some (map snd (filter (\<lambda>p. fst p = key) ps))"
    by (simp add: m)
  then have "key \<in> fst ` set sp"
    by (metis map_of_eq_None_iff option.distinct(1))
  then have "distinct (map fst (set_property sp key (map snd (filter (\<lambda>p. fst p = key) ps) @ [v])))"
    using d by (simp add: keys_set_property)
  then show ?thesis
    using True by (simp add: append_param_own [OF own] map_of_set_property m)
next
  case False
  then have none: "map_of sp key = None"
    by (simp add: m)
  then have nk: "key \<notin> fst ` set sp"
    by (simp add: map_of_eq_None_iff)
  have e: "filter (\<lambda>p. fst p = key) ps = []"
    using False by (auto simp: filter_empty_conv)
  have "distinct (map fst (set_property (set_property sp key []) key [v]))"
    using d nk by (simp add: keys_set_property key_set_set_property)
  then show ?thesis
    using False by (simp add: append_param_new [OF none ok] map_of_set_property m e)
qed

lemma append_all_state:
  assumes "distinct (map fst sp)"
    and "\<And>k. map_of sp k
            = (if k \<in> fst ` set ps then Some (map snd (filter (\<lambda>p. fst p = k) ps)) else None)"
    and "fst ` set qs \<inter> set Object_prototype_keys = {}"
  shows "\<exists>sp'. append_all sp qs = Inr sp' \<and> distinct (map fst sp')
           \<and> (\<forall>k. map_of sp' k
                 = (if k \<in> fst ` set (ps @ qs)
                    then Some (map snd (filter (\<lambda>p. fst p = k) (ps @ qs))) else None))"
  using assms
proof (induction qs arbitrary: sp ps)
  case Nil
  then show ?case by simp
next
  case (Cons q qs)
  obtain key v where q: "q = (key, v)" by (cases q)
  from Cons.prems(3) q have ok: "key \<notin> set Object_prototype_keys"
    and rest: "fst ` set qs \<inter> set Object_prototype_keys = {}"
    by auto
  from append_param_step [OF Cons.prems(1) Cons.prems(2) ok, of v]
  obtain sp1 where s1: "append_param sp key v = Inr sp1" and d1: "distinct (map fst sp1)"
    and m1: "\<And>k. map_of sp1 k
               = (if k \<in> fst ` set (ps @ [(key, v)])
                  then Some (map snd (filter (\<lambda>p. fst p = k) (ps @ [(key, v)]))) else None)"
    by blast
  from Cons.IH [OF d1 m1 rest]
  obtain sp' where "append_all sp1 qs = Inr sp'" and "distinct (map fst sp')"
    and "\<And>k. map_of sp' k
            = (if k \<in> fst ` set ((ps @ [(key, v)]) @ qs)
               then Some (map snd (filter (\<lambda>p. fst p = k) ((ps @ [(key, v)]) @ qs))) else None)"
    by blast
  then show ?case
    using s1 q by simp
qed

lemma toString_state:
  assumes d: "distinct (map fst sp)"
    and m: "\<And>k. map_of sp k
               = (if k \<in> fst ` set ps then Some (map snd (filter (\<lambda>p. fst p = k) ps)) else None)"
  shows "toString sp = join (js ''&'') (map (\<lambda>(k, v). k @ js ''='' @ v) (sort_key fst ps))"
proof -
  let ?ks = "sort (Object_keys sp)"
  have keys: "set (map fst sp) = fst ` set ps"
  proof -
    have "set (map fst sp) = dom (map_of sp)" by (simp add: dom_map_of_conv_image_fst)
    also have "\<dots> = fst ` set ps" by (auto simp: dom_def m)
    finally show ?thesis .
  qed
  have grp: "map (\<lambda>value. key @ js ''='' @ value)
               (case get_property sp key of Own vs \<Rightarrow> vs | _ \<Rightarrow> [])
             = map (\<lambda>(k, v). k @ js ''='' @ v) (filter (\<lambda>p. fst p = key) ps)"
    if "key \<in> set ?ks" for key
  proof -
    from that keys have "key \<in> fst ` set ps" by (simp add: Object_keys_def)
    then have "get_property sp key = Own (map snd (filter (\<lambda>p. fst p = key) ps))"
      by (simp add: get_property_own m)
    moreover have "map (\<lambda>value. key @ js ''='' @ value) (map snd (filter (\<lambda>p. fst p = key) qs))
                     = map (\<lambda>(k, v). k @ js ''='' @ v) (filter (\<lambda>p. fst p = key) qs)" for qs
      by (induction qs) auto
    ultimately show ?thesis by simp
  qed
  have "map (\<lambda>key. map (\<lambda>value. key @ js ''='' @ value)
                       (case get_property sp key of Own vs \<Rightarrow> vs | _ \<Rightarrow> [])) ?ks
        = map (\<lambda>key. map (\<lambda>(k, v). k @ js ''='' @ v) (filter (\<lambda>p. fst p = key) ps)) ?ks"
    by (rule map_cong) (simp_all only: grp)
  then have "concat (map (\<lambda>key. map (\<lambda>value. key @ js ''='' @ value)
                       (case get_property sp key of Own vs \<Rightarrow> vs | _ \<Rightarrow> [])) ?ks)
        = concat (map (\<lambda>key. map (\<lambda>(k, v). k @ js ''='' @ v) (filter (\<lambda>p. fst p = key) ps)) ?ks)"
    by (simp only:)
  also have "\<dots> = map (\<lambda>(k, v). k @ js ''='' @ v)
                      (concat (map (\<lambda>key. filter (\<lambda>p. fst p = key) ps) ?ks))"
    by (simp add: map_concat comp_def)
  also have "concat (map (\<lambda>key. filter (\<lambda>p. fst p = key) ps) ?ks) = sort_key fst ps"
    by (rule groups_are_sort_key) (use d keys in \<open>simp_all add: Object_keys_def\<close>)
  finally show ?thesis
    by (simp add: toString_def)
qed

lemma encode_sorted:
  assumes "fst ` set ps \<inter> set Object_prototype_keys = {}"
  shows "encode ps = Inr (join (js ''&'') (map (\<lambda>(k, v). k @ js ''='' @ v) (sort_key fst ps)))"
proof -
  have "\<exists>sp'. append_all [] ps = Inr sp' \<and> distinct (map fst sp')
           \<and> (\<forall>k. map_of sp' k
                 = (if k \<in> fst ` set ([] @ ps)
                    then Some (map snd (filter (\<lambda>p. fst p = k) ([] @ ps))) else None))"
    by (rule append_all_state) (use assms in simp_all)
  then obtain sp' where "append_all [] ps = Inr sp'" and "distinct (map fst sp')"
    and "\<And>k. map_of sp' k
            = (if k \<in> fst ` set ps then Some (map snd (filter (\<lambda>p. fst p = k) ps)) else None)"
    by auto
  then show ?thesis
    by (simp add: encode_def createURLSearchParams_def toString_state)
qed

text \<open>The string does not depend on the order in which the own keys are listed.\<close>

lemma toString_any_key_order:
  assumes "distinct (map fst sp)" and "mset sp' = mset sp"
  shows "toString sp' = toString sp"
proof -
  from assms(2) have keys: "mset (map fst sp') = mset (map fst sp)"
    by (metis mset_map)
  then have d': "distinct (map fst sp')"
    using assms(1) by (metis mset_eq_imp_distinct_iff)
  from assms(2) have "set sp' = set sp" by (rule mset_eq_setD)
  with assms(1) d' have "map_of sp' = map_of sp"
    by (simp add: map_of_inject_set)
  then have "get_property sp' = get_property sp"
    by (simp add: get_property_def fun_eq_iff)
  moreover from keys have "sort (Object_keys sp') = sort (Object_keys sp)"
    unfolding Object_keys_def by (rule sort_key_eq_sort_key) simp
  ultimately show ?thesis
    by (simp add: toString_def)
qed

subsection \<open>Sorted by key, in insertion order under a key\<close>

lemma stable_sort_of_rearrangement:
  assumes "mset qs = mset ps" and "distinct (map fst ps)"
  shows "sort_key fst qs = sort_key fst ps"
proof -
  from assms(1) have "set qs = set ps" by (rule mset_eq_setD)
  with assms(2) have "inj_on fst (set qs)" by (simp add: distinct_map)
  with assms(1) show ?thesis by (rule sort_key_eq_sort_key)
qed

lemma encode_rearrangement:
  assumes "fst ` set ps \<inter> set Object_prototype_keys = {}"
    and "mset qs = mset ps" and "distinct (map fst ps)"
  shows "encode qs = encode ps"
proof -
  from assms(2) have "set qs = set ps" by (rule mset_eq_setD)
  with assms(1) have "fst ` set qs \<inter> set Object_prototype_keys = {}" by simp
  then have "encode qs
      = Inr (join (js ''&'') (map (\<lambda>(k, v). k @ js ''='' @ v) (sort_key fst qs)))"
    by (rule encode_sorted)
  also have "sort_key fst qs = sort_key fst ps"
    using assms(2,3) by (rule stable_sort_of_rearrangement)
  also have "Inr (join (js ''&'') (map (\<lambda>(k, v). k @ js ''='' @ v) (sort_key fst ps))) = encode ps"
    using assms(1) by (rule encode_sorted [symmetric])
  finally show ?thesis .
qed

subsection \<open>An encoder that accepted its appends\<close>

lemma append_param_accepts:
  assumes "append_param sp key v = Inr sp'"
    and "fst ` set sp \<inter> set Object_prototype_keys = {}"
  shows "key \<notin> set Object_prototype_keys \<and> fst ` set sp' = insert key (fst ` set sp)"
proof (cases "map_of sp key")
  case None
  show ?thesis
  proof (cases "key \<in> set Object_prototype_keys")
    case True
    with None assms(1) show ?thesis by (simp add: append_param_inherited)
  next
    case False
    with None assms(1) have "sp' = set_property (set_property sp key []) key [v]"
      by (simp add: append_param_new)
    then have "fst ` set sp' = insert key (fst ` set sp)"
      by (simp only: key_set_set_property) simp
    with False show ?thesis by simp
  qed
next
  case (Some vs)
  then have "key \<in> fst ` set sp"
    by (metis map_of_eq_None_iff option.distinct(1))
  then have "key \<notin> set Object_prototype_keys"
    using assms(2) by blast
  moreover from Some assms(1) have "sp' = set_property sp key (vs @ [v])"
    by (simp add: append_param_own)
  then have "fst ` set sp' = insert key (fst ` set sp)"
    by (simp only: key_set_set_property)
  ultimately show ?thesis by simp
qed

lemma append_all_accepts:
  assumes "append_all sp ps = Inr sp'"
    and "fst ` set sp \<inter> set Object_prototype_keys = {}"
  shows "fst ` set ps \<inter> set Object_prototype_keys = {}"
  using assms
proof (induction ps arbitrary: sp)
  case Nil
  then show ?case by simp
next
  case (Cons p ps)
  obtain key v where p: "p = (key, v)" by (cases p)
  from Cons.prems(1) p obtain sp1 where s1: "append_param sp key v = Inr sp1"
    and r: "append_all sp1 ps = Inr sp'"
    by (auto split: sum.splits)
  from append_param_accepts [OF s1 Cons.prems(2)]
  have k: "key \<notin> set Object_prototype_keys" and "fst ` set sp1 = insert key (fst ` set sp)"
    by simp_all
  with Cons.prems(2) have "fst ` set sp1 \<inter> set Object_prototype_keys = {}" by simp
  from Cons.IH [OF r this] k p show ?case by simp
qed

lemma toString_after_appends:
  assumes "append_all createURLSearchParams ps = Inr sp"
  shows "toString sp = join (js ''&'') (map (\<lambda>(k, v). k @ js ''='' @ v) (sort_key fst ps))"
proof -
  have "fst ` set ps \<inter> set Object_prototype_keys = {}"
    by (rule append_all_accepts [OF assms]) (simp add: createURLSearchParams_def)
  then have "encode ps = Inr (join (js ''&'') (map (\<lambda>(k, v). k @ js ''='' @ v) (sort_key fst ps)))"
    by (rule encode_sorted)
  with assms show ?thesis by (simp add: encode_def)
qed

text \<open>
  An append is not accepted when its key is a name that the plain object inherits and
  does not own: the call throws, and nothing is appended.
\<close>

lemma append_inherited_key_throws:
  "append_param createURLSearchParams (js ''constructor'') (js ''x'') = Inl TypeError"
  by (simp add: createURLSearchParams_def append_param_def get_property_def
        Object_prototype_keys_def js_def)

lemma accepted_rearrangement:
  assumes "append_all createURLSearchParams ps = Inr sp"
    and "mset qs = mset ps" and "distinct (map fst ps)"
  shows "encode qs = Inr (toString sp)"
proof -
  have ok: "fst ` set ps \<inter> set Object_prototype_keys = {}"
    by (rule append_all_accepts [OF assms(1)]) (simp add: createURLSearchParams_def)
  have "encode qs = encode ps"
    using ok assms(2,3) by (rule encode_rearrangement)
  also have "encode ps = Inr (toString sp)"
    using assms(1) by (simp add: encode_def)
  finally show ?thesis .
qed

text \<open>
  C1. For every sequence of (key, value) pairs that the encoder has appended, the query
  string lists the \<open>key=value\<close> pairs sorted lexicographically by key, whatever the order
  of insertion: it lists exactly the appended pairs, the keys ascend, and the values of a
  repeated key keep their insertion order among themselves. Two append sequences that are
  rearrangements of each other over distinct keys give the identical string. With no
  pair appended the result is the empty string.
\<close>

theorem query_string_sorted_by_key:
  assumes "append_all createURLSearchParams ps = Inr sp"
  shows "toString sp = join (js ''&'') (map (\<lambda>(k, v). k @ js ''='' @ v) (sort_key fst ps))
         \<and> mset (sort_key fst ps) = mset ps
         \<and> sorted (map fst (sort_key fst ps))
         \<and> (\<forall>k. filter (\<lambda>p. fst p = k) (sort_key fst ps) = filter (\<lambda>p. fst p = k) ps)
         \<and> (\<forall>qs. mset qs = mset ps \<and> distinct (map fst ps) \<longrightarrow> encode qs = Inr (toString sp))
         \<and> toString createURLSearchParams = []"
proof -
  have "toString createURLSearchParams = []"
    by (simp add: createURLSearchParams_def toString_def Object_keys_def)
  moreover have "encode qs = Inr (toString sp)"
    if "mset qs = mset ps \<and> distinct (map fst ps)" for qs
    using assms that by (blast intro: accepted_rearrangement)
  ultimately show ?thesis
    using toString_after_appends [OF assms] by (simp add: sort_key_stable)
qed

theorem query_string_sorted_by_key_witness:
  "append_all createURLSearchParams [(js ''user'', js ''u''), (js ''original'', js ''o'')]
     = Inr [(js ''user'', [js ''u'']), (js ''original'', [js ''o''])]
   \<and> toString [(js ''user'', [js ''u'']), (js ''original'', [js ''o''])] = js ''original=o&user=u''
   \<and> encode [(js ''original'', js ''o''), (js ''user'', js ''u'')] = Inr (js ''original=o&user=u'')
   \<and> append_all createURLSearchParams
         [(js ''k'', js ''2''), (js ''a'', js ''x''), (js ''k'', js ''1'')]
     = Inr [(js ''k'', [js ''2'', js ''1'']), (js ''a'', [js ''x''])]
   \<and> toString [(js ''k'', [js ''2'', js ''1'']), (js ''a'', [js ''x''])] = js ''a=x&k=2&k=1''"
proof -
  have h: "append_all createURLSearchParams [(js ''user'', js ''u''), (js ''original'', js ''o'')]
     = Inr [(js ''user'', [js ''u'']), (js ''original'', [js ''o''])]"
    by (simp add: createURLSearchParams_def append_param_def get_property_def
          Object_prototype_keys_def js_def)
  have g: "append_all createURLSearchParams
         [(js ''k'', js ''2''), (js ''a'', js ''x''), (js ''k'', js ''1'')]
     = Inr [(js ''k'', [js ''2'', js ''1'']), (js ''a'', [js ''x''])]"
    by (simp add: createURLSearchParams_def append_param_def get_property_def
          Object_prototype_keys_def js_def)
  have c: "mset [(js ''original'', js ''o''), (js ''user'', js ''u'')]
             = mset [(js ''user'', js ''u''), (js ''original'', js ''o'')]"
    by simp
  have d: "distinct (map fst [(js ''user'', js ''u''), (js ''original'', js ''o'')])"
    by (simp add: js_def)
  note t = query_string_sorted_by_key [OF h]
  from t [THEN conjunct1]
  have 1: "toString [(js ''user'', [js ''u'']), (js ''original'', [js ''o''])] = js ''original=o&user=u''"
    by (simp add: js_def)
  from t [THEN conjunct2, THEN conjunct2, THEN conjunct2, THEN conjunct2, THEN conjunct1] c d
  have "encode [(js ''original'', js ''o''), (js ''user'', js ''u'')]
          = Inr (toString [(js ''user'', [js ''u'']), (js ''original'', [js ''o''])])"
    by blast
  with 1 have 2: "encode [(js ''original'', js ''o''), (js ''user'', js ''u'')]
                    = Inr (js ''original=o&user=u'')"
    by simp
  from query_string_sorted_by_key [OF g, THEN conjunct1]
  have 3: "toString [(js ''k'', [js ''2'', js ''1'']), (js ''a'', [js ''x''])] = js ''a=x&k=2&k=1''"
    by (simp add: js_def)
  from h g 1 2 3 show ?thesis by simp
qed

section \<open>The URL that an operation requests\<close>

subsection \<open>buildUrl and the three operations\<close>

lemma append_entries_as_appends:
  "append_entries sp es
     = append_all sp (map (\<lambda>(k, v). (k, String_of v)) (filter (\<lambda>(k, v). v \<noteq> PUndefined) es))"
  by (induction sp es rule: append_entries.induct) (auto split: sum.splits)

lemma buildUrl_encode:
  "buildUrl cfg ep es
     = (case encode (map (\<lambda>(k, v). (k, String_of v)) (filter (\<lambda>(k, v). v \<noteq> PUndefined) es)) of
          Inl e \<Rightarrow> Inl e
        | Inr query \<Rightarrow> Inr (BASE_URL cfg @ ep @ (if query \<noteq> [] then js ''?'' @ query else [])))"
  by (simp add: buildUrl_def encode_def append_entries_as_appends Let_def split: sum.splits)

lemma append_entries_succeeds:
  assumes "fst ` set es \<inter> set Object_prototype_keys = {}"
  shows "\<exists>sp. append_entries createURLSearchParams es = Inr sp"
proof -
  let ?ps = "map (\<lambda>(k, v). (k, String_of v)) (filter (\<lambda>(k, v). v \<noteq> PUndefined) es)"
  have "fst ` set ?ps \<subseteq> fst ` set es" by force
  with assms have "fst ` set ?ps \<inter> set Object_prototype_keys = {}" by blast
  then have "encode ?ps
      = Inr (join (js ''&'') (map (\<lambda>(k, v). k @ js ''='' @ v) (sort_key fst ?ps)))"
    by (rule encode_sorted)
  then show ?thesis
    by (auto simp: encode_def append_entries_as_appends split: sum.splits)
qed

lemma call_endpoint_request:
  assumes "append_entries createURLSearchParams es = Inr sp"
  shows "call_endpoint c ep es
           = request c (BASE_URL (config c) @ ep
                          @ (if toString sp = [] then [] else js ''?'' @ toString sp))"
  using assms by (simp add: call_endpoint_def buildUrl_def Let_def)

lemma request_trace:
  "fst (request c u) = [\<lparr>url = u, options = \<lparr>RequestOptions.headers = headers c\<rparr>\<rparr>]"
  by (simp add: request_def)

lemma solve_params_keys: "fst ` set (solve_params so) \<inter> set Object_prototype_keys = {}"
  by (simp add: solve_params_def Object_prototype_keys_def js_def)

lemma validate_params_keys: "fst ` set (validate_params vo) \<inter> set Object_prototype_keys = {}"
  by (simp add: validate_params_def Object_prototype_keys_def js_def)

lemma generate_params_keys: "fst ` set (generate_params arg) \<inter> set Object_prototype_keys = {}"
  by (simp add: generate_params_def Object_prototype_keys_def js_def Let_def)

lemma perform_request: "\<exists>u. perform c op = request c u"
proof (cases op)
  case (Solve so)
  from append_entries_succeeds [OF solve_params_keys] obtain sp
    where "append_entries createURLSearchParams (solve_params so) = Inr sp" by blast
  from call_endpoint_request [OF this] Solve show ?thesis by (auto simp: solve_def)
next
  case (Validate vo)
  from append_entries_succeeds [OF validate_params_keys] obtain sp
    where "append_entries createURLSearchParams (validate_params vo) = Inr sp" by blast
  from call_endpoint_request [OF this] Validate show ?thesis by (auto simp: validate_def)
next
  case (Generate arg)
  from append_entries_succeeds [OF generate_params_keys] obtain sp
    where "append_entries createURLSearchParams (generate_params arg) = Inr sp" by blast
  from call_endpoint_request [OF this] Generate show ?thesis by (auto simp: generate_def)
qed

subsection \<open>The base URL\<close>

lemma all_slashes_iff:
  "(xs = replicate (length xs) a) = (set xs \<subseteq> {a})"
  by (induction xs) auto

lemma replace_trailing_slashes_cut:
  "replace_trailing_slashes b
     @ replicate (length b - length (replace_trailing_slashes b)) (of_char CHR ''/'') = b"
proof (induction b)
  case Nil
  then show ?case by simp
next
  case (Cons c cs)
  have "length (replace_trailing_slashes cs) \<le> length cs"
    by (induction cs) auto
  with Cons show ?case
    by (auto simp: Suc_diff_le simp del: replicate.simps of_char_Char)
qed

lemma replace_trailing_slashes_last:
  "replace_trailing_slashes b \<noteq> [] \<Longrightarrow> last (replace_trailing_slashes b) \<noteq> of_char CHR ''/''"
proof (induction b)
  case Nil
  then show ?case by simp
next
  case (Cons c cs)
  show ?case
  proof (cases "replace_trailing_slashes cs = []")
    case True
    with replace_trailing_slashes_cut [of cs]
    have cs: "cs = replicate (length cs) (of_char CHR ''/'')" by simp
    from Cons.prems have "c # cs \<noteq> replicate (Suc (length cs)) (of_char CHR ''/'')"
      by (auto split: if_splits)
    with cs have "c \<noteq> of_char CHR ''/''"
      by (metis replicate_Suc)
    with True Cons.prems show ?thesis by (auto split: if_splits)
  next
    case False
    with Cons show ?thesis by (auto split: if_splits)
  qed
qed

lemma replace_trailing_slashes_append:
  "replace_trailing_slashes (u @ replicate n (of_char CHR ''/'')) = replace_trailing_slashes u"
proof (induction u)
  case Nil
  show ?case by (cases n) simp_all
next
  case (Cons c cs)
  have "(c # cs @ replicate n (of_char CHR ''/'')
           = replicate (Suc (length (cs @ replicate n (of_char CHR ''/'')))) (of_char CHR ''/''))
        = (c # cs = replicate (Suc (length cs)) (of_char CHR ''/''))"
    using all_slashes_iff [of "c # cs @ replicate n (of_char CHR ''/'')" "of_char CHR ''/''"]
      all_slashes_iff [of "c # cs" "of_char CHR ''/''"]
    by (auto simp del: replicate.simps of_char_Char)
  with Cons show ?case by (simp del: replicate.simps of_char_Char)
qed

subsection \<open>The URL of each operation\<close>

lemma buildUrl_sorted:
  assumes "fst ` set es \<inter> set Object_prototype_keys = {}"
  shows "buildUrl cfg ep es
     = Inr (BASE_URL cfg @ ep
        @ (if join (js ''&'') (map (\<lambda>(k, v). k @ js ''='' @ v)
                (sort_key fst (map (\<lambda>(k, v). (k, String_of v))
                   (filter (\<lambda>(k, v). v \<noteq> PUndefined) es)))) \<noteq> []
           then js ''?'' @ join (js ''&'') (map (\<lambda>(k, v). k @ js ''='' @ v)
                (sort_key fst (map (\<lambda>(k, v). (k, String_of v))
                   (filter (\<lambda>(k, v). v \<noteq> PUndefined) es))))
           else []))"
proof -
  let ?ps = "map (\<lambda>(k, v). (k, String_of v)) (filter (\<lambda>(k, v). v \<noteq> PUndefined) es)"
  have "fst ` set ?ps \<subseteq> fst ` set es" by force
  with assms have "fst ` set ?ps \<inter> set Object_prototype_keys = {}" by blast
  then have "encode ?ps
      = Inr (join (js ''&'') (map (\<lambda>(k, v). k @ js ''='' @ v) (sort_key fst ?ps)))"
    by (rule encode_sorted)
  then show ?thesis
    by (simp only: buildUrl_encode sum.case)
qed

lemma solve_url:
  "buildUrl cfg ep (solve_params so)
     = Inr (BASE_URL cfg @ ep @ js ''?'' @ join (js ''&'')
         ((case autoPencilmarks so of None \<Rightarrow> []
           | Some b \<Rightarrow> [js ''autopencilmarks='' @ String_of (PBoolean b)])
          @ (case filters so of None \<Rightarrow> [] | Some f \<Rightarrow> [js ''filters='' @ f])
          @ [js ''original='' @ SolveOptions.original so]
          @ (case pencilmarks so of None \<Rightarrow> [] | Some p \<Rightarrow> [js ''pencilmarks='' @ p])
          @ [js ''user='' @ user so]))"
  unfolding buildUrl_sorted [OF solve_params_keys]
  by (cases "autoPencilmarks so"; cases "filters so"; cases "pencilmarks so")
     (simp_all add: solve_params_def boolean_param_def string_param_def js_def)

lemma validate_url:
  "buildUrl cfg ep (validate_params vo)
     = Inr (BASE_URL cfg @ ep @ js ''?original='' @ ValidateOptions.original vo)"
  unfolding buildUrl_sorted [OF validate_params_keys]
  by (simp add: validate_params_def js_def)

lemma generate_url:
  "buildUrl cfg ep (generate_params arg)
     = Inr (BASE_URL cfg @ ep
         @ (case (case arg of None \<Rightarrow> None | Some opts \<Rightarrow> symmetrical opts) of
              None \<Rightarrow> []
            | Some b \<Rightarrow> js ''?symmetrical='' @ String_of (PBoolean b)))"
  unfolding buildUrl_sorted [OF generate_params_keys]
  by (cases arg; cases "symmetrical (the arg)")
     (simp_all add: generate_params_def boolean_param_def js_def Let_def)


lemma solve_trace:
  "fst (solve c so)
     = [\<lparr>url = BASE_URL (config c) @ Endpoints.SOLVE (ENDPOINTS (config c)) @ js ''?'' @ join (js ''&'')
           ((case autoPencilmarks so of None \<Rightarrow> []
             | Some b \<Rightarrow> [js ''autopencilmarks='' @ String_of (PBoolean b)])
            @ (case filters so of None \<Rightarrow> [] | Some f \<Rightarrow> [js ''filters='' @ f])
            @ [js ''original='' @ SolveOptions.original so]
            @ (case pencilmarks so of None \<Rightarrow> [] | Some p \<Rightarrow> [js ''pencilmarks='' @ p])
            @ [js ''user='' @ user so]),
         options = \<lparr>RequestOptions.headers = headers c\<rparr>\<rparr>]"
  by (simp only: solve_def call_endpoint_def solve_url sum.case request_trace)

lemma validate_trace:
  "fst (validate c vo)
     = [\<lparr>url = BASE_URL (config c) @ Endpoints.VALIDATE (ENDPOINTS (config c))
                @ js ''?original='' @ ValidateOptions.original vo,
         options = \<lparr>RequestOptions.headers = headers c\<rparr>\<rparr>]"
  by (simp only: validate_def call_endpoint_def validate_url sum.case request_trace)

lemma generate_trace:
  "fst (generate c arg)
     = [\<lparr>url = BASE_URL (config c) @ Endpoints.GENERATE (ENDPOINTS (config c))
                @ (case (case arg of None \<Rightarrow> None | Some opts \<Rightarrow> symmetrical opts) of
                     None \<Rightarrow> []
                   | Some b \<Rightarrow> js ''?symmetrical='' @ String_of (PBoolean b)),
         options = \<lparr>RequestOptions.headers = headers c\<rparr>\<rparr>]"
  by (simp only: generate_def call_endpoint_def generate_url sum.case request_trace)

text \<open>
  C2. For every sequence of pairs that the encoder has appended, \<open>toString\<close> renders each
  appended pair once, as the literal text \<open>key=value\<close> with the value exactly as it was
  given, and joins the pairs with \<open>&\<close>: nothing is percent-encoded. In particular the
  pencilmarks value \<open>123,456,789\<close> is encoded as \<open>pencilmarks=123,456,789\<close>, and the URL
  that \<open>solve\<close> requests carries \<open>pencilmarks=\<close> followed by the value as given.
\<close>

theorem values_emitted_verbatim:
  assumes "append_all createURLSearchParams ps = Inr sp"
  shows "toString sp = join (js ''&'') (map (\<lambda>(k, v). k @ js ''='' @ v) (sort_key fst ps))
     \<and> mset (sort_key fst ps) = mset ps
     \<and> encode [(js ''pencilmarks'', js ''123,456,789'')] = Inr (js ''pencilmarks=123,456,789'')
     \<and> fst (solve c (so\<lparr>pencilmarks := Some pm\<rparr>))
         = [\<lparr>url = BASE_URL (config c) @ Endpoints.SOLVE (ENDPOINTS (config c)) @ js ''?'' @ join (js ''&'')
               ((case autoPencilmarks so of None \<Rightarrow> []
                 | Some b \<Rightarrow> [js ''autopencilmarks='' @ String_of (PBoolean b)])
                @ (case filters so of None \<Rightarrow> [] | Some f \<Rightarrow> [js ''filters='' @ f])
                @ [js ''original='' @ SolveOptions.original so]
                @ [js ''pencilmarks='' @ pm]
                @ [js ''user='' @ user so]),
             options = \<lparr>RequestOptions.headers = headers c\<rparr>\<rparr>]"
proof -
  have "encode [(js ''pencilmarks'', js ''123,456,789'')] = Inr (js ''pencilmarks=123,456,789'')"
    by (simp add: encode_def createURLSearchParams_def append_param_def get_property_def
          Object_prototype_keys_def toString_def Object_keys_def js_def)
  then show ?thesis
    using toString_after_appends [OF assms] by (simp add: solve_trace)
qed

theorem values_emitted_verbatim_witness:
  "append_all createURLSearchParams
       [(js ''pencilmarks'', js ''123,456,789''), (js ''filters'', js ''a b&c'')]
     = Inr [(js ''pencilmarks'', [js ''123,456,789'']), (js ''filters'', [js ''a b&c''])]
   \<and> toString [(js ''pencilmarks'', [js ''123,456,789'']), (js ''filters'', [js ''a b&c''])]
     = js ''filters=a b&c&pencilmarks=123,456,789''"
proof -
  have h: "append_all createURLSearchParams
       [(js ''pencilmarks'', js ''123,456,789''), (js ''filters'', js ''a b&c'')]
     = Inr [(js ''pencilmarks'', [js ''123,456,789'']), (js ''filters'', [js ''a b&c''])]"
    by (simp add: createURLSearchParams_def append_param_def get_property_def
          Object_prototype_keys_def js_def)
  from values_emitted_verbatim [OF h, THEN conjunct1] have
    "toString [(js ''pencilmarks'', [js ''123,456,789'']), (js ''filters'', [js ''a b&c''])]
     = js ''filters=a b&c&pencilmarks=123,456,789''"
    by (simp add: js_def)
  with h show ?thesis by simp
qed

text \<open>
  C6. An option whose value is \<open>undefined\<close> leaves no token in the query string: the URL
  is the one built without that entry. An explicit \<open>false\<close> is sent as the text
  \<open>false\<close>. So \<open>generate()\<close> and \<open>generate({})\<close> request the bare generate endpoint,
  whose path has no \<open>symmetrical\<close> in it, \<open>generate({symmetrical: false})\<close> requests it
  with \<open>?symmetrical=false\<close>, and the two URLs differ; \<open>solve\<close> sends the tokens of
  \<open>autopencilmarks\<close>, \<open>filters\<close> and \<open>pencilmarks\<close> exactly when they are given.
\<close>

theorem undefined_option_sends_no_token:
  "buildUrl cfg ep (es1 @ (k, PUndefined) # es2) = buildUrl cfg ep (es1 @ es2)
   \<and> boolean_param None = PUndefined
   \<and> string_param None = PUndefined
   \<and> String_of (boolean_param (Some False)) = js ''false''
   \<and> map url (fst (generate c None))
       = [BASE_URL (config c) @ Endpoints.GENERATE (ENDPOINTS (config c))]
   \<and> map url (fst (generate c (Some \<lparr>symmetrical = None\<rparr>)))
       = [BASE_URL (config c) @ Endpoints.GENERATE (ENDPOINTS (config c))]
   \<and> map url (fst (generate c (Some \<lparr>symmetrical = Some False\<rparr>)))
       = [BASE_URL (config c) @ Endpoints.GENERATE (ENDPOINTS (config c)) @ js ''?symmetrical=false'']
   \<and> map url (fst (generate c (Some \<lparr>symmetrical = Some True\<rparr>)))
       = [BASE_URL (config c) @ Endpoints.GENERATE (ENDPOINTS (config c)) @ js ''?symmetrical=true'']
   \<and> map url (fst (generate c None)) \<noteq> map url (fst (generate c (Some \<lparr>symmetrical = Some False\<rparr>)))
   \<and> Endpoints.GENERATE (ENDPOINTS (createApiConfig cfg')) = js ''/api/generate''
   \<and> \<not> sublist (js ''symmetrical'') (js ''/api/generate'')
   \<and> map url (fst (solve c so))
       = [BASE_URL (config c) @ Endpoints.SOLVE (ENDPOINTS (config c)) @ js ''?'' @ join (js ''&'')
           ((case autoPencilmarks so of None \<Rightarrow> []
             | Some b \<Rightarrow> [js ''autopencilmarks='' @ (if b then js ''true'' else js ''false'')])
            @ (case filters so of None \<Rightarrow> [] | Some f \<Rightarrow> [js ''filters='' @ f])
            @ [js ''original='' @ SolveOptions.original so]
            @ (case pencilmarks so of None \<Rightarrow> [] | Some p \<Rightarrow> [js ''pencilmarks='' @ p])
            @ [js ''user='' @ user so])]"
proof -
  have "buildUrl cfg ep (es1 @ (k, PUndefined) # es2) = buildUrl cfg ep (es1 @ es2)"
    by (simp add: buildUrl_encode)
  moreover have "\<not> sublist (js ''symmetrical'') (js ''/api/generate'')"
    by (simp add: js_def sublist_Cons_right)
  moreover have "String_of (PBoolean b) = (if b then js ''true'' else js ''false'')" for b
    by simp
  then have "fst (solve c so)
     = [\<lparr>url = BASE_URL (config c) @ Endpoints.SOLVE (ENDPOINTS (config c)) @ js ''?'' @ join (js ''&'')
           ((case autoPencilmarks so of None \<Rightarrow> []
             | Some b \<Rightarrow> [js ''autopencilmarks='' @ (if b then js ''true'' else js ''false'')])
            @ (case filters so of None \<Rightarrow> [] | Some f \<Rightarrow> [js ''filters='' @ f])
            @ [js ''original='' @ SolveOptions.original so]
            @ (case pencilmarks so of None \<Rightarrow> [] | Some p \<Rightarrow> [js ''pencilmarks='' @ p])
            @ [js ''user='' @ user so]),
         options = \<lparr>RequestOptions.headers = headers c\<rparr>\<rparr>]"
    by (simp only: solve_trace)
  moreover have "js ''?symmetrical='' @ js ''false'' = js ''?symmetrical=false''"
    "js ''?symmetrical='' @ js ''true'' = js ''?symmetrical=true''"
    "js ''?symmetrical=false'' \<noteq> []"
    by (simp_all add: js_def)
  ultimately show ?thesis
    by (simp add: boolean_param_def string_param_def generate_trace createApiConfig_def)
qed

theorem undefined_option_sends_no_token_witness:
  "map url (fst (generate
      (new_SudojoSolverClient (\<lambda>u h. Inl () :: unit + unit NetworkResponse)
         \<lparr>baseUrl = js ''http://localhost:5000'', timeout = None\<rparr>) None))
     = [js ''http://localhost:5000/api/generate'']
   \<and> map url (fst (generate
      (new_SudojoSolverClient (\<lambda>u h. Inl () :: unit + unit NetworkResponse)
         \<lparr>baseUrl = js ''http://localhost:5000'', timeout = None\<rparr>)
      (Some \<lparr>symmetrical = Some False\<rparr>)))
     = [js ''http://localhost:5000/api/generate?symmetrical=false'']
   \<and> map url (fst (solve
      (new_SudojoSolverClient (\<lambda>u h. Inl () :: unit + unit NetworkResponse)
         \<lparr>baseUrl = js ''http://localhost:5000'', timeout = None\<rparr>)
      \<lparr>original = js ''0400'', user = js ''0000'', autoPencilmarks = Some False,
        pencilmarks = Some (js ''123,456,789''), filters = Some (js ''test'')\<rparr>))
     = [js ''http://localhost:5000/api/solve?autopencilmarks=false&filters=test&original=0400&pencilmarks=123,456,789&user=0000'']"
  using undefined_option_sends_no_token
    [where c = "new_SudojoSolverClient (\<lambda>u h. Inl () :: unit + unit NetworkResponse)
         \<lparr>baseUrl = js ''http://localhost:5000'', timeout = None\<rparr>"
       and so = "\<lparr>original = js ''0400'', user = js ''0000'', autoPencilmarks = Some False,
        pencilmarks = Some (js ''123,456,789''), filters = Some (js ''test'')\<rparr>"]
  by (simp add: new_SudojoSolverClient_def createApiConfig_def js_def)

lemma constructed_client_trace:
  assumes "fst ` set es \<inter> set Object_prototype_keys = {}"
  shows "\<exists>sp. append_entries createURLSearchParams es = Inr sp
          \<and> fst (call_endpoint (new_SudojoSolverClient nc cfg) ep es)
              = [\<lparr>url = BASE_URL (createApiConfig cfg) @ ep
                         @ (if toString sp = [] then [] else js ''?'' @ toString sp),
                  options = \<lparr>RequestOptions.headers =
                     [(js ''Content-Type'', js ''application/json''),
                      (js ''Accept'', js ''application/json'')]\<rparr>\<rparr>]"
proof -
  from append_entries_succeeds [OF assms] obtain sp
    where sp: "append_entries createURLSearchParams es = Inr sp" by blast
  have "fst (call_endpoint (new_SudojoSolverClient nc cfg) ep es)
            = [\<lparr>url = BASE_URL (createApiConfig cfg) @ ep
                       @ (if toString sp = [] then [] else js ''?'' @ toString sp),
                options = \<lparr>RequestOptions.headers =
                   [(js ''Content-Type'', js ''application/json''),
                    (js ''Accept'', js ''application/json'')]\<rparr>\<rparr>]"
    by (simp add: call_endpoint_request [OF sp] request_trace new_SudojoSolverClient_def
          createApiConfig_def)
  with sp show ?thesis by blast
qed

lemma constructed_client_endpoints:
  "Endpoints.SOLVE (ENDPOINTS (config (new_SudojoSolverClient nc cfg))) = js ''/api/solve''"
  "Endpoints.VALIDATE (ENDPOINTS (config (new_SudojoSolverClient nc cfg))) = js ''/api/validate''"
  "Endpoints.GENERATE (ENDPOINTS (config (new_SudojoSolverClient nc cfg))) = js ''/api/generate''"
  by (simp_all add: new_SudojoSolverClient_def createApiConfig_def)

text \<open>
  C7. The client is constructed with \<open>BASE_URL\<close> set to the configured \<open>baseUrl\<close> without
  its trailing slashes: \<open>baseUrl\<close> is \<open>BASE_URL\<close> followed by slashes only, \<open>BASE_URL\<close>
  does not end in a slash, and more trailing slashes on \<open>baseUrl\<close> change nothing. Each
  operation of a constructed client issues exactly one GET, to \<open>BASE_URL\<close>, then the path
  of its endpoint, then \<open>?\<close> and the encoded query when the query is not empty and
  nothing when it is; the request carries the two default headers and no other.
\<close>

theorem one_get_to_the_endpoint_url:
  "(\<exists>n. baseUrl cfg = BASE_URL (createApiConfig cfg) @ replicate n (of_char CHR ''/''))
   \<and> \<not> suffix (js ''/'') (BASE_URL (createApiConfig cfg))
   \<and> BASE_URL (createApiConfig (cfg\<lparr>baseUrl := baseUrl cfg @ replicate m (of_char CHR ''/'')\<rparr>))
       = BASE_URL (createApiConfig cfg)
   \<and> (\<exists>sp. append_entries createURLSearchParams (solve_params so) = Inr sp
          \<and> fst (solve (new_SudojoSolverClient nc_solve cfg) so)
              = [\<lparr>url = BASE_URL (createApiConfig cfg) @ js ''/api/solve''
                         @ (if toString sp = [] then [] else js ''?'' @ toString sp),
                  options = \<lparr>RequestOptions.headers =
                     [(js ''Content-Type'', js ''application/json''),
                      (js ''Accept'', js ''application/json'')]\<rparr>\<rparr>])
   \<and> (\<exists>sp. append_entries createURLSearchParams (validate_params vo) = Inr sp
          \<and> fst (validate (new_SudojoSolverClient nc_validate cfg) vo)
              = [\<lparr>url = BASE_URL (createApiConfig cfg) @ js ''/api/validate''
                         @ (if toString sp = [] then [] else js ''?'' @ toString sp),
                  options = \<lparr>RequestOptions.headers =
                     [(js ''Content-Type'', js ''application/json''),
                      (js ''Accept'', js ''application/json'')]\<rparr>\<rparr>])
   \<and> (\<exists>sp. append_entries createURLSearchParams (generate_params arg) = Inr sp
          \<and> fst (generate (new_SudojoSolverClient nc_generate cfg) arg)
              = [\<lparr>url = BASE_URL (createApiConfig cfg) @ js ''/api/generate''
                         @ (if toString sp = [] then [] else js ''?'' @ toString sp),
                  options = \<lparr>RequestOptions.headers =
                     [(js ''Content-Type'', js ''application/json''),
                      (js ''Accept'', js ''application/json'')]\<rparr>\<rparr>])"
proof -
  have cut: "\<exists>n. baseUrl cfg = BASE_URL (createApiConfig cfg) @ replicate n (of_char CHR ''/'')"
    using replace_trailing_slashes_cut [of "baseUrl cfg"]
    by (simp only: createApiConfig_def ApiConfig.simps) (metis (full_types))
  have nosl: "\<not> suffix (js ''/'') (BASE_URL (createApiConfig cfg))"
  proof
    assume "suffix (js ''/'') (BASE_URL (createApiConfig cfg))"
    then obtain pre where "replace_trailing_slashes (baseUrl cfg) = pre @ [of_char CHR ''/'']"
      by (auto simp: suffix_def createApiConfig_def js_def simp del: of_char_Char)
    then have "replace_trailing_slashes (baseUrl cfg) \<noteq> []"
      and "last (replace_trailing_slashes (baseUrl cfg)) = of_char CHR ''/''"
      by simp_all
    with replace_trailing_slashes_last show False by blast
  qed
  have more: "BASE_URL (createApiConfig (cfg\<lparr>baseUrl := baseUrl cfg @ replicate m (of_char CHR ''/'')\<rparr>))
       = BASE_URL (createApiConfig cfg)"
    by (simp add: createApiConfig_def replace_trailing_slashes_append del: of_char_Char)
  show ?thesis
    using cut nosl more
      constructed_client_trace [OF solve_params_keys, of so nc_solve cfg "js ''/api/solve''"]
      constructed_client_trace [OF validate_params_keys, of vo nc_validate cfg "js ''/api/validate''"]
      constructed_client_trace [OF generate_params_keys, of arg nc_generate cfg "js ''/api/generate''"]
    by (simp only: solve_def validate_def generate_def constructed_client_endpoints) blast
qed

theorem one_get_to_the_endpoint_url_witness:
  "BASE_URL (createApiConfig \<lparr>baseUrl = js ''http://h:5000///'', timeout = None\<rparr>) = js ''http://h:5000''
   \<and> fst (validate
        (new_SudojoSolverClient (\<lambda>u h. Inl () :: unit + unit NetworkResponse)
           \<lparr>baseUrl = js ''http://h:5000///'', timeout = None\<rparr>)
        \<lparr>ValidateOptions.original = js ''0400''\<rparr>)
     = [\<lparr>url = js ''http://h:5000/api/validate?original=0400'',
         options = \<lparr>RequestOptions.headers =
           [(js ''Content-Type'', js ''application/json''), (js ''Accept'', js ''application/json'')]\<rparr>\<rparr>]
   \<and> fst (generate
        (new_SudojoSolverClient (\<lambda>u h. Inl () :: unit + unit NetworkResponse)
           \<lparr>baseUrl = js ''http://h:5000///'', timeout = None\<rparr>)
        None)
     = [\<lparr>url = js ''http://h:5000/api/generate'',
         options = \<lparr>RequestOptions.headers =
           [(js ''Content-Type'', js ''application/json''), (js ''Accept'', js ''application/json'')]\<rparr>\<rparr>]"
  using one_get_to_the_endpoint_url
    [where cfg = "\<lparr>baseUrl = js ''http://h:5000///'', timeout = None\<rparr>"
       and nc_validate = "\<lambda>u h. Inl () :: unit + unit NetworkResponse"
       and vo = "\<lparr>ValidateOptions.original = js ''0400''\<rparr>"
       and nc_generate = "\<lambda>u h. Inl () :: unit + unit NetworkResponse"
       and arg = None]
  by (auto simp: createApiConfig_def js_def validate_params_def generate_params_def
        boolean_param_def createURLSearchParams_def append_param_def get_property_def
        Object_prototype_keys_def toString_def Object_keys_def Let_def)

section \<open>What a call resolves to or throws\<close>

lemma perform_outcome:
  assumes "fst (perform c op) = [call]"
  shows "snd (perform c op)
     = (case networkClient c (url call) (options call) of
          Inl e \<Rightarrow> Inl (Rejected e)
        | Inr res \<Rightarrow>
            if \<not> ok res then
              Inl (SudojoApiError
                     (js ''API request failed with status '' @ Number_toString (status res))
                     (status res) (NetworkResponse.data res))
            else (case NetworkResponse.data res of
                    Undefined \<Rightarrow> Inl (Error (js ''No data received from server''))
                  | Null \<Rightarrow> Inl (Error (js ''No data received from server''))
                  | Data d \<Rightarrow> Inr d))"
proof -
  obtain u where u: "perform c op = request c u"
    using perform_request by blast
  with assms have "call = \<lparr>url = u, options = \<lparr>RequestOptions.headers = headers c\<rparr>\<rparr>"
    by (simp add: request_trace)
  then show ?thesis
    by (simp add: u request_def)
qed

lemma perform_never_throws_exception:
  "snd (perform c op) \<noteq> Inl (Exception e)"
proof -
  obtain u where "perform c op = request c u"
    using perform_request by blast
  then show ?thesis
    by (simp add: request_def split: sum.splits body.splits)
qed

lemma perform_single_call:
  "\<exists>call. fst (perform c op) = [call]"
proof -
  obtain u where "perform c op = request c u"
    using perform_request by blast
  then show ?thesis by (simp add: request_trace)
qed

text \<open>
  C3. Every operation issues one GET, and when the response to it has \<open>ok\<close> false the
  call throws a \<open>SudojoApiError\<close> whose \<open>statusCode\<close> is the response's status, whose
  \<open>response\<close> is the response's body as it is (\<open>undefined\<close> included), and whose message
  is \<open>API request failed with status\<close> followed by the status.
\<close>

theorem not_ok_throws_api_error:
  "\<exists>call. fst (perform c op) = [call]
     \<and> (\<forall>r. networkClient c (url call) (options call) = Inr r \<and> \<not> ok r \<longrightarrow>
            snd (perform c op)
              = Inl (SudojoApiError
                       (js ''API request failed with status '' @ Number_toString (status r))
                       (status r) (NetworkResponse.data r)))"
proof -
  obtain call where t: "fst (perform c op) = [call]"
    using perform_single_call by blast
  then show ?thesis
    by (auto simp: perform_outcome [OF t])
qed

theorem not_ok_throws_api_error_witness:
  "snd (perform
         (new_SudojoSolverClient
            (\<lambda>u h. Inr \<lparr>ok = False, status = Abs_safe_integer 404, NetworkResponse.data = Data (js ''Not found'')\<rparr>
               :: unit + jsstring NetworkResponse)
            \<lparr>baseUrl = js ''http://localhost:5000'', timeout = None\<rparr>)
         (Solve \<lparr>original = js ''0400'', user = js ''0000'', autoPencilmarks = None, pencilmarks = None, filters = None\<rparr>))
     = Inl (SudojoApiError (js ''API request failed with status 404'') (Abs_safe_integer 404) (Data (js ''Not found''))) \<and>
   snd (perform
         (new_SudojoSolverClient
            (\<lambda>u h. Inr \<lparr>ok = False, status = Abs_safe_integer 404, NetworkResponse.data = Data (js ''Not found'')\<rparr>
               :: unit + jsstring NetworkResponse)
            \<lparr>baseUrl = js ''http://localhost:5000'', timeout = None\<rparr>)
         (Validate \<lparr>ValidateOptions.original = js ''0400''\<rparr>))
     = Inl (SudojoApiError (js ''API request failed with status 404'') (Abs_safe_integer 404) (Data (js ''Not found''))) \<and>
   snd (perform
         (new_SudojoSolverClient
            (\<lambda>u h. Inr \<lparr>ok = False, status = Abs_safe_integer 404, NetworkResponse.data = Data (js ''Not found'')\<rparr>
               :: unit + jsstring NetworkResponse)
            \<lparr>baseUrl = js ''http://localhost:5000'', timeout = None\<rparr>)
         (Generate None))
     = Inl (SudojoApiError (js ''API request failed with status 404'') (Abs_safe_integer 404) (Data (js ''Not found'')))"
proof -
  let ?r = "\<lparr>ok = False, status = Abs_safe_integer 404, NetworkResponse.data = Data (js ''Not found'')\<rparr>"
  let ?c = "new_SudojoSolverClient (\<lambda>u h. Inr ?r :: unit + jsstring NetworkResponse)
              \<lparr>baseUrl = js ''http://localhost:5000'', timeout = None\<rparr>"
  have a: "snd (perform ?c op) = Inl (SudojoApiError (js ''API request failed with status 404'') (Abs_safe_integer 404) (Data (js ''Not found'')))" for op
  proof -
    from not_ok_throws_api_error [of ?c op] obtain call :: GetCall where
      i: "\<forall>r. networkClient ?c (url call) (options call) = Inr r \<and> \<not> ok r \<longrightarrow>
            snd (perform ?c op)
              = Inl (SudojoApiError
                       (js ''API request failed with status '' @ Number_toString (status r))
                       (status r) (NetworkResponse.data r))"
      by blast
    have "networkClient ?c (url call) (options call) = Inr ?r \<and> \<not> ok ?r"
      by (simp add: new_SudojoSolverClient_def)
    with i show ?thesis
      by (simp add: Number_toString_def Abs_safe_integer_inverse digits.simps js_def)
  qed
  show ?thesis
    by (simp only: a)
qed

text \<open>
  C4. Every operation issues one GET, and when the response to it has \<open>ok\<close> true and a
  body that is \<open>undefined\<close> or \<open>null\<close> the call throws a plain \<open>Error\<close> with the message
  \<open>No data received from server\<close>: an error without a status code (it is never a
  \<open>SudojoApiError\<close>), whatever the status of the response.
\<close>

theorem ok_without_body_throws_no_data:
  "\<exists>call. fst (perform c op) = [call]
     \<and> (\<forall>r. networkClient c (url call) (options call) = Inr r \<and> ok r
              \<and> (NetworkResponse.data r = Undefined \<or> NetworkResponse.data r = Null) \<longrightarrow>
            snd (perform c op) = Inl (Error (js ''No data received from server''))
            \<and> (\<forall>m s b. snd (perform c op) \<noteq> Inl (SudojoApiError m s b)))"
proof -
  obtain call where t: "fst (perform c op) = [call]"
    using perform_single_call by blast
  then show ?thesis
    by (auto simp: perform_outcome [OF t])
qed

theorem ok_without_body_throws_no_data_witness:
  "snd (perform
         (new_SudojoSolverClient
            (\<lambda>u h. Inr \<lparr>ok = True, status = Abs_safe_integer 500, NetworkResponse.data = Undefined\<rparr>
               :: unit + jsstring NetworkResponse)
            \<lparr>baseUrl = js ''http://localhost:5000'', timeout = None\<rparr>)
         (Solve \<lparr>original = js ''0400'', user = js ''0000'', autoPencilmarks = None, pencilmarks = None, filters = None\<rparr>))
     = Inl (Error (js ''No data received from server'')) \<and>
   snd (perform
         (new_SudojoSolverClient
            (\<lambda>u h. Inr \<lparr>ok = True, status = Abs_safe_integer 500, NetworkResponse.data = Undefined\<rparr>
               :: unit + jsstring NetworkResponse)
            \<lparr>baseUrl = js ''http://localhost:5000'', timeout = None\<rparr>)
         (Validate \<lparr>ValidateOptions.original = js ''0400''\<rparr>))
     = Inl (Error (js ''No data received from server'')) \<and>
   snd (perform
         (new_SudojoSolverClient
            (\<lambda>u h. Inr \<lparr>ok = True, status = Abs_safe_integer 500, NetworkResponse.data = Undefined\<rparr>
               :: unit + jsstring NetworkResponse)
            \<lparr>baseUrl = js ''http://localhost:5000'', timeout = None\<rparr>)
         (Generate None))
     = Inl (Error (js ''No data received from server''))"
proof -
  let ?r = "\<lparr>ok = True, status = Abs_safe_integer 500, NetworkResponse.data = Undefined\<rparr>"
  let ?c = "new_SudojoSolverClient (\<lambda>u h. Inr ?r :: unit + jsstring NetworkResponse)
              \<lparr>baseUrl = js ''http://localhost:5000'', timeout = None\<rparr>"
  have a: "snd (perform ?c op) = Inl (Error (js ''No data received from server''))" for op
  proof -
    from ok_without_body_throws_no_data [of ?c op] obtain call :: GetCall where
      i: "\<forall>r. networkClient ?c (url call) (options call) = Inr r \<and> ok r
              \<and> (NetworkResponse.data r = Undefined \<or> NetworkResponse.data r = Null) \<longrightarrow>
            snd (perform ?c op) = Inl (Error (js ''No data received from server''))
            \<and> (\<forall>m s b. snd (perform ?c op) \<noteq> Inl (SudojoApiError m s b))"
      by blast
    have "networkClient ?c (url call) (options call) = Inr ?r \<and> ok ?r \<and> (NetworkResponse.data ?r = Undefined \<or> NetworkResponse.data ?r = Null)"
      by (simp add: new_SudojoSolverClient_def)
    with i show ?thesis
      by (simp add: js_def)
  qed
  show ?thesis
    by (simp only: a)
qed

text \<open>
  C5. Every operation issues one GET, and when the response to it has \<open>ok\<close> true and a
  body that is present the call resolves to that body unchanged; the fields of the body
  are not looked at. So a body with \<open>success\<close> false and the error code \<open>cannot_solve\<close>
  is a normal result.
\<close>

theorem ok_with_body_returns_it:
  "\<exists>call. fst (perform c op) = [call]
     \<and> (\<forall>r d. networkClient c (url call) (options call) = Inr r \<and> ok r
              \<and> NetworkResponse.data r = Data d \<longrightarrow>
            snd (perform c op) = Inr d)"
proof -
  obtain call where t: "fst (perform c op) = [call]"
    using perform_single_call by blast
  then show ?thesis
    by (auto simp: perform_outcome [OF t])
qed

theorem ok_with_body_returns_it_witness:
  "snd (perform
         (new_SudojoSolverClient
            (\<lambda>u h. Inr \<lparr>ok = True, status = Abs_safe_integer 200, NetworkResponse.data = Data \<lparr>success = False, error = Some \<lparr>code = CannotSolve, message = js ''Cannot solve this Sudoku puzzle''\<rparr>, data = (None :: unit option)\<rparr>\<rparr>
               :: unit + unit SudokuResult NetworkResponse)
            \<lparr>baseUrl = js ''http://localhost:5000'', timeout = None\<rparr>)
         (Solve \<lparr>original = js ''0400'', user = js ''0000'', autoPencilmarks = None, pencilmarks = None, filters = None\<rparr>))
     = Inr \<lparr>success = False, error = Some \<lparr>code = CannotSolve, message = js ''Cannot solve this Sudoku puzzle''\<rparr>, data = (None :: unit option)\<rparr> \<and>
   snd (perform
         (new_SudojoSolverClient
            (\<lambda>u h. Inr \<lparr>ok = True, status = Abs_safe_integer 200, NetworkResponse.data = Data \<lparr>success = False, error = Some \<lparr>code = CannotSolve, message = js ''Cannot solve this Sudoku puzzle''\<rparr>, data = (None :: unit option)\<rparr>\<rparr>
               :: unit + unit SudokuResult NetworkResponse)
            \<lparr>baseUrl = js ''http://localhost:5000'', timeout = None\<rparr>)
         (Validate \<lparr>ValidateOptions.original = js ''0400''\<rparr>))
     = Inr \<lparr>success = False, error = Some \<lparr>code = CannotSolve, message = js ''Cannot solve this Sudoku puzzle''\<rparr>, data = (None :: unit option)\<rparr> \<and>
   snd (perform
         (new_SudojoSolverClient
            (\<lambda>u h. Inr \<lparr>ok = True, status = Abs_safe_integer 200, NetworkResponse.data = Data \<lparr>success = False, error = Some \<lparr>code = CannotSolve, message = js ''Cannot solve this Sudoku puzzle''\<rparr>, data = (None :: unit option)\<rparr>\<rparr>
               :: unit + unit SudokuResult NetworkResponse)
            \<lparr>baseUrl = js ''http://localhost:5000'', timeout = None\<rparr>)
         (Generate None))
     = Inr \<lparr>success = False, error = Some \<lparr>code = CannotSolve, message = js ''Cannot solve this Sudoku puzzle''\<rparr>, data = (None :: unit option)\<rparr> \<and>
   \<not> success \<lparr>success = False, error = Some \<lparr>code = CannotSolve, message = js ''Cannot solve this Sudoku puzzle''\<rparr>, data = (None :: unit option)\<rparr> \<and>
   map_option (\<lambda>e. ErrorCode_value (code e)) (error \<lparr>success = False, error = Some \<lparr>code = CannotSolve, message = js ''Cannot solve this Sudoku puzzle''\<rparr>, data = (None :: unit option)\<rparr>) = Some (js ''cannot_solve'')"
proof -
  let ?r = "\<lparr>ok = True, status = Abs_safe_integer 200, NetworkResponse.data = Data \<lparr>success = False, error = Some \<lparr>code = CannotSolve, message = js ''Cannot solve this Sudoku puzzle''\<rparr>, data = (None :: unit option)\<rparr>\<rparr>"
  let ?c = "new_SudojoSolverClient (\<lambda>u h. Inr ?r :: unit + unit SudokuResult NetworkResponse)
              \<lparr>baseUrl = js ''http://localhost:5000'', timeout = None\<rparr>"
  have a: "snd (perform ?c op) = Inr \<lparr>success = False, error = Some \<lparr>code = CannotSolve, message = js ''Cannot solve this Sudoku puzzle''\<rparr>, data = (None :: unit option)\<rparr>" for op
  proof -
    from ok_with_body_returns_it [of ?c op] obtain call :: GetCall where
      i: "\<forall>r d. networkClient ?c (url call) (options call) = Inr r \<and> ok r
              \<and> NetworkResponse.data r = Data d \<longrightarrow>
            snd (perform ?c op) = Inr d"
      by blast
    have "networkClient ?c (url call) (options call) = Inr ?r \<and> ok ?r \<and> NetworkResponse.data ?r = Data \<lparr>success = False, error = Some \<lparr>code = CannotSolve, message = js ''Cannot solve this Sudoku puzzle''\<rparr>, data = (None :: unit option)\<rparr>"
      by (simp add: new_SudojoSolverClient_def)
    with i show ?thesis
      by (simp add: js_def)
  qed
  have b:
  "snd (perform
         (new_SudojoSolverClient
            (\<lambda>u h. Inr \<lparr>ok = True, status = Abs_safe_integer 200, NetworkResponse.data = Data \<lparr>success = False, error = Some \<lparr>code = CannotSolve, message = js ''Cannot solve this Sudoku puzzle''\<rparr>, data = (None :: unit option)\<rparr>\<rparr>
               :: unit + unit SudokuResult NetworkResponse)
            \<lparr>baseUrl = js ''http://localhost:5000'', timeout = None\<rparr>)
         (Solve \<lparr>original = js ''0400'', user = js ''0000'', autoPencilmarks = None, pencilmarks = None, filters = None\<rparr>))
     = Inr \<lparr>success = False, error = Some \<lparr>code = CannotSolve, message = js ''Cannot solve this Sudoku puzzle''\<rparr>, data = (None :: unit option)\<rparr> \<and>
   snd (perform
         (new_SudojoSolverClient
            (\<lambda>u h. Inr \<lparr>ok = True, status = Abs_safe_integer 200, NetworkResponse.data = Data \<lparr>success = False, error = Some \<lparr>code = CannotSolve, message = js ''Cannot solve this Sudoku puzzle''\<rparr>, data = (None :: unit option)\<rparr>\<rparr>
               :: unit + unit SudokuResult NetworkResponse)
            \<lparr>baseUrl = js ''http://localhost:5000'', timeout = None\<rparr>)
         (Validate \<lparr>ValidateOptions.original = js ''0400''\<rparr>))
     = Inr \<lparr>success = False, error = Some \<lparr>code = CannotSolve, message = js ''Cannot solve this Sudoku puzzle''\<rparr>, data = (None :: unit option)\<rparr> \<and>
   snd (perform
         (new_SudojoSolverClient
            (\<lambda>u h. Inr \<lparr>ok = True, status = Abs_safe_integer 200, NetworkResponse.data = Data \<lparr>success = False, error = Some \<lparr>code = CannotSolve, message = js ''Cannot solve this Sudoku puzzle''\<rparr>, data = (None :: unit option)\<rparr>\<rparr>
               :: unit + unit SudokuResult NetworkResponse)
            \<lparr>baseUrl = js ''http://localhost:5000'', timeout = None\<rparr>)
         (Generate None))
     = Inr \<lparr>success = False, error = Some \<lparr>code = CannotSolve, message = js ''Cannot solve this Sudoku puzzle''\<rparr>, data = (None :: unit option)\<rparr>"
    by (simp only: a)
  show ?thesis
    using b by simp
qed

section \<open>The hook layer: stale times and query keys\<close>

text \<open>
  C9. In \<open>STALE_TIMES\<close>, \<open>GENERATE\<close> is zero and \<open>VALIDATE\<close> is strictly greater than
  \<open>SOLVE\<close>, which is strictly greater than zero. Each of the three hooks passes the
  constant of its operation as \<open>staleTime\<close> when the caller gives no \<open>queryOptions\<close> or
  \<open>queryOptions\<close> without a \<open>staleTime\<close> property; it is a default, since a
  \<open>staleTime\<close> property of \<open>queryOptions\<close> replaces it.
\<close>

theorem stale_times_and_hook_defaults:
  "StaleTimes.GENERATE STALE_TIMES = 0
   \<and> StaleTimes.SOLVE STALE_TIMES < StaleTimes.VALIDATE STALE_TIMES
   \<and> 0 < StaleTimes.SOLVE STALE_TIMES
   \<and> UseQueryOptions.staleTime (useSolverSolve nc1 cfg1 so None) = Some (StaleTimes.SOLVE STALE_TIMES)
   \<and> UseQueryOptions.staleTime (useSolverSolve nc1 cfg1 so (Some \<lparr>QueryOptions.staleTime = Absent\<rparr>))
         = Some (StaleTimes.SOLVE STALE_TIMES)
   \<and> UseQueryOptions.staleTime (useSolverValidate nc2 cfg2 vo None) = Some (StaleTimes.VALIDATE STALE_TIMES)
   \<and> UseQueryOptions.staleTime (useSolverValidate nc2 cfg2 vo (Some \<lparr>QueryOptions.staleTime = Absent\<rparr>))
         = Some (StaleTimes.VALIDATE STALE_TIMES)
   \<and> UseQueryOptions.staleTime (useSolverGenerate nc3 cfg3 go None) = Some (StaleTimes.GENERATE STALE_TIMES)
   \<and> UseQueryOptions.staleTime (useSolverGenerate nc3 cfg3 go (Some \<lparr>QueryOptions.staleTime = Absent\<rparr>))
         = Some (StaleTimes.GENERATE STALE_TIMES)
   \<and> UseQueryOptions.staleTime (useSolverSolve nc1 cfg1 so (Some \<lparr>QueryOptions.staleTime = Present v\<rparr>)) = v
   \<and> UseQueryOptions.staleTime (useSolverValidate nc2 cfg2 vo (Some \<lparr>QueryOptions.staleTime = Present v\<rparr>)) = v
   \<and> UseQueryOptions.staleTime (useSolverGenerate nc3 cfg3 go (Some \<lparr>QueryOptions.staleTime = Present v\<rparr>)) = v"
  by (simp add: STALE_TIMES_def useSolverSolve_def useSolverValidate_def useSolverGenerate_def
        spread_def Let_def)

text \<open>
  C10. \<open>getServiceKeys()\<close> returns the one-element key \<open>['sudojo-solver']\<close>, and every
  key made by \<open>queryKeys.solver.solve\<close>, \<open>.validate\<close> and \<open>.generate\<close> begins with
  it: the service key is a prefix of every operation key.
\<close>

theorem service_key_prefix_of_operation_keys:
  "getServiceKeys = [KString (js ''sudojo-solver'')]
   \<and> prefix getServiceKeys (queryKeys_solver_solve so)
   \<and> prefix getServiceKeys (queryKeys_solver_validate orig)
   \<and> prefix getServiceKeys (queryKeys_solver_generate arg)
   \<and> take 1 (queryKeys_solver_solve so) = getServiceKeys
   \<and> take 1 (queryKeys_solver_validate orig) = getServiceKeys
   \<and> take 1 (queryKeys_solver_generate arg) = getServiceKeys"
  by (simp add: getServiceKeys_def queryKeys_solver_all_def solverBase_def
        queryKeys_solver_solve_def queryKeys_solver_validate_def queryKeys_solver_generate_def)

text \<open>
  C8. The key of an operation is a function of the operation's name and of its input:
  each key factory gives equal keys exactly for equal inputs (so any change of an input
  changes the key), and keys of two different operations are never equal. The hooks take
  their key from these factories, with the options they were given: all five of solve,
  \<open>original\<close> of validate, \<open>symmetrical\<close> of generate.
\<close>

theorem query_keys_distinguish_inputs:
  "(queryKeys_solver_solve so = queryKeys_solver_solve so') = (so = so')
   \<and> (queryKeys_solver_validate orig = queryKeys_solver_validate orig') = (orig = orig')
   \<and> (queryKeys_solver_generate arg = queryKeys_solver_generate arg') = (arg = arg')
   \<and> queryKeys_solver_solve so \<noteq> queryKeys_solver_validate orig
   \<and> queryKeys_solver_solve so \<noteq> queryKeys_solver_generate arg
   \<and> queryKeys_solver_validate orig \<noteq> queryKeys_solver_generate arg
   \<and> queryKey (useSolverSolve nc1 cfg1 so q1) = queryKeys_solver_solve so
   \<and> queryKey (useSolverValidate nc2 cfg2 vo q2) = queryKeys_solver_validate (ValidateOptions.original vo)
   \<and> queryKey (useSolverGenerate nc3 cfg3 arg q3)
       = queryKeys_solver_generate
           (Some \<lparr>symmetrical = (case arg of None \<Rightarrow> None | Some opts \<Rightarrow> symmetrical opts)\<rparr>)"
  by (auto simp: queryKeys_solver_solve_def queryKeys_solver_validate_def
        queryKeys_solver_generate_def js_def useSolverSolve_def useSolverValidate_def
        useSolverGenerate_def spread_def Let_def
        split: option.splits member.splits)

end
